theory Spec2Isabelle
  imports Main "HOL-Library.Sublist"
begin

section \<open>Python values used by \<open>Keysight_Oscope.py\<close>\<close>

text \<open>
  A Python \<open>bytes\<close> object is an immutable sequence of octets. HOL's \<open>char\<close> has exactly
  256 values, so a \<open>bytes\<close> value is a \<open>char list\<close>; \<open>of_char\<close> reads the octet as a number.
\<close>

type_synonym bytes = "char list"

text \<open>
  The exceptions that can leave the methods modelled here: \<open>ValueError\<close> from \<open>int()\<close>,
  \<open>AttributeError\<close> when \<open>self.OS\<close> was never assigned, \<open>VisaIOError\<close> from the
  instrument-control transport, \<open>OSError\<close> from \<open>open()\<close>.
\<close>

datatype error = ValueError | AttributeError | VisaIOError | OSError

subsection \<open>Slicing\<close>

text \<open>
  \<open>xs[a:b]\<close> never raises. A negative bound counts from the end, and every bound is
  clamped into \<open>0..len(xs)\<close>; an empty range gives the empty sequence.
\<close>

definition clamp_index :: "nat \<Rightarrow> int \<Rightarrow> nat" where
  "clamp_index n i = (if i < 0 then nat (int n + i) else min (nat i) n)"

definition py_slice :: "'a list \<Rightarrow> int \<Rightarrow> int \<Rightarrow> 'a list" where
  "py_slice xs a b =
     (let lo = clamp_index (length xs) a; hi = clamp_index (length xs) b
      in take (hi - lo) (drop lo xs))"

text \<open>\<open>data.startswith(prefix)\<close>.\<close>

definition startswith :: "bytes \<Rightarrow> bytes \<Rightarrow> bool" where
  "startswith data p = (take (length p) data = p)"

subsection \<open>\<open>int()\<close> applied to bytes\<close>

text \<open>
  \<open>int(b)\<close> for a \<open>bytes\<close> argument reads a base-10 literal: optional ASCII whitespace, an
  optional sign, one or more ASCII digits in which single underscores may stand between
  digits, optional ASCII whitespace, and nothing else. Anything else raises \<open>ValueError\<close>;
  in particular the empty sequence does.
\<close>

definition isspace :: "char \<Rightarrow> bool" where
  "isspace c = ((9 \<le> (of_char c :: nat) \<and> (of_char c :: nat) \<le> 13) \<or> (of_char c :: nat) = 32)"

definition isdigit :: "char \<Rightarrow> bool" where
  "isdigit c = (48 \<le> (of_char c :: nat) \<and> (of_char c :: nat) \<le> 57)"

definition digit_value :: "char \<Rightarrow> int" where
  "digit_value c = int (of_char c) - 48"

text \<open>
  The digit scan. The flag says that the previous byte was an underscore; the scan stops at
  the first byte that is neither a digit nor an underscore and hands back what is left.
  Two underscores in a row, or an underscore not followed by a digit, are refused.
\<close>

fun scan_digits :: "bool \<Rightarrow> int \<Rightarrow> bytes \<Rightarrow> (int \<times> bytes) option" where
  "scan_digits us acc [] = (if us then None else Some (acc, []))"
| "scan_digits us acc (c # cs) =
     (if isdigit c then scan_digits False (10 * acc + digit_value c) cs
      else if c = CHR ''_'' then (if us then None else scan_digits True acc cs)
      else if us then None else Some (acc, c # cs))"

definition strip_sign :: "bytes \<Rightarrow> int \<times> bytes" where
  "strip_sign s =
     (case s of
        [] \<Rightarrow> (1, [])
      | c # cs \<Rightarrow> if c = CHR ''+'' then (1, cs) else if c = CHR ''-'' then (- 1, cs) else (1, s))"

definition py_int :: "bytes \<Rightarrow> error + int" where
  "py_int s =
     (let (sign, body) = strip_sign (dropWhile isspace s)
      in case body of
           [] \<Rightarrow> Inl ValueError
         | c # cs \<Rightarrow>
             if \<not> isdigit c then Inl ValueError
             else (case scan_digits False 0 body of
                     None \<Rightarrow> Inl ValueError
                   | Some (v, rest) \<Rightarrow>
                       if dropWhile isspace rest = [] then Inr (sign * v) else Inl ValueError))"

section \<open>The binary block read by \<open>saveImage\<close>\<close>

text \<open>
  Lines 221 to 226 of \<open>saveImage\<close> compute the variable \<open>binary_data\<close> from the raw
  response \<open>data\<close>:
  \<^verbatim>\<open>
  if data.startswith(b'#'):
      header_length = int(data[1:2])
      data_length = int(data[2:2 + header_length])
      binary_data = data[2 + header_length:2 + header_length + data_length]
  else:
      binary_data = data
  \<close>
  Either call of \<open>int\<close> may raise, and the exception leaves \<open>saveImage\<close>.
\<close>

definition header_length :: "bytes \<Rightarrow> error + int" where
  "header_length data = py_int (py_slice data 1 2)"

definition data_length :: "bytes \<Rightarrow> int \<Rightarrow> error + int" where
  "data_length data h = py_int (py_slice data 2 (2 + h))"

definition binary_data :: "bytes \<Rightarrow> error + bytes" where
  "binary_data data =
     (if startswith data ''#'' then
        (case header_length data of
           Inl e \<Rightarrow> Inl e
         | Inr h \<Rightarrow>
             (case data_length data h of
                Inl e \<Rightarrow> Inl e
              | Inr l \<Rightarrow> Inr (py_slice data (2 + h) (2 + h + l))))
      else Inr data)"

section \<open>Building a block, as the specification writes it\<close>

text \<open>
  Modelled from the spec: the source has no encoder; the specification builds its test
  inputs as \<^verbatim>\<open>b"#" + str(H).encode() + f"{L:0{H}d}".encode() + P\<close>. \<open>str_nat\<close> is
  \<open>str(n).encode()\<close> for a non-negative \<open>n\<close>, \<open>fmt_0d H L\<close> is \<open>f"{L:0{H}d}".encode()\<close>
  (zero padding on the left up to width \<open>H\<close>, never cutting), and \<open>encode_block\<close> takes
  for \<open>H\<close> the number of decimal digits of the payload length.
\<close>

definition digit_char :: "nat \<Rightarrow> char" where
  "digit_char d = char_of (48 + d)"

fun str_nat :: "nat \<Rightarrow> bytes" where
  "str_nat n = (if n < 10 then [digit_char n] else str_nat (n div 10) @ [digit_char (n mod 10)])"

declare str_nat.simps [simp del]

definition fmt_0d :: "nat \<Rightarrow> nat \<Rightarrow> bytes" where
  "fmt_0d H L = replicate (H - length (str_nat L)) (CHR ''0'') @ str_nat L"

definition block :: "nat \<Rightarrow> nat \<Rightarrow> bytes \<Rightarrow> bytes" where
  "block H L P = ''#'' @ str_nat H @ fmt_0d H L @ P"

definition encode_block :: "bytes \<Rightarrow> bytes" where
  "encode_block P = block (length (str_nat (length P))) (length P) P"

section \<open>The instrument object\<close>

text \<open>
  The transport (the pyvisa session held in \<open>self.OS\<close>) is an external library, of
  which the source uses \<open>write\<close>, \<open>query\<close> and \<open>read_raw\<close>. Here it is a scripted
  device: \<open>outbox\<close> collects the commands written, \<open>inbox\<close> holds the replies still to
  be read, and while the link is down, or when nothing is left to read, an operation
  raises \<open>VisaIOError\<close>. Each operation returns its outcome together with the transport
  as the call leaves it.
\<close>

record transport =
  link_up :: bool
  outbox :: "string list"
  inbox :: "bytes list"

definition OS_write :: "string \<Rightarrow> transport \<Rightarrow> (error + unit) \<times> transport" where
  "OS_write command t =
     (if link_up t then (Inr (), t\<lparr>outbox := outbox t @ [command]\<rparr>) else (Inl VisaIOError, t))"

definition OS_read_raw :: "transport \<Rightarrow> (error + bytes) \<times> transport" where
  "OS_read_raw t =
     (if link_up t then
        (case inbox t of
           [] \<Rightarrow> (Inl VisaIOError, t)
         | r # rs \<Rightarrow> (Inr r, t\<lparr>inbox := rs\<rparr>))
      else (Inl VisaIOError, t))"

definition OS_query :: "string \<Rightarrow> transport \<Rightarrow> (error + string) \<times> transport" where
  "OS_query command t =
     (case OS_write command t of
        (Inl e, t1) \<Rightarrow> (Inl e, t1)
      | (Inr u, t1) \<Rightarrow> OS_read_raw t1)"

text \<open>
  The fields \<open>__init__\<close> sets. \<open>self.OS\<close> is assigned only when \<open>IO_Conf\<close> is \<open>"LAN"\<close> or
  \<open>"USB"\<close>; otherwise the attribute does not exist (\<open>None\<close> here) and reading it raises
  \<open>AttributeError\<close>. Before that test \<open>__init__\<close> calls \<open>pyvisa.ResourceManager()\<close>,
  whatever \<open>IO_Conf\<close> is; the call belongs to pyvisa and is a parameter: it raises, or it
  gives the resource manager, whose \<open>open_resource\<close> raises or gives a transport. An
  exception in \<open>__init__\<close> leaves no object behind.
\<close>

record Keysight_DSOX1204G =
  IDN :: string
  USB_Addr :: string
  LAN_Addr :: string
  OS :: "transport option"

definition init ::
  "error + (string \<Rightarrow> error + transport) \<Rightarrow> string \<Rightarrow> error + Keysight_DSOX1204G" where
  "init ResourceManager IO_Conf =
     (let self = \<lparr>IDN = ''KEYSIGHT TECHNOLOGIES,DSOX1204G,CN60167508,02.10.2019111333'' @ [CHR 0x0A],
                  USB_Addr = ''USB0::10893::918::CN60167508::INSTR'',
                  LAN_Addr = ''TCPIP0::k-dx1204g-67508::hislip0::INSTR'',
                  OS = None\<rparr>
      in case ResourceManager of
           Inl e \<Rightarrow> Inl e
         | Inr open_resource \<Rightarrow>
             if IO_Conf = ''LAN'' then
               (case open_resource (LAN_Addr self) of
                  Inl e \<Rightarrow> Inl e
                | Inr t \<Rightarrow> Inr (self\<lparr>OS := Some t\<rparr>))
             else if IO_Conf = ''USB'' then
               (case open_resource (USB_Addr self) of
                  Inl e \<Rightarrow> Inl e
                | Inr t \<Rightarrow> Inr (self\<lparr>OS := Some t\<rparr>))
             else Inr self)"

text \<open>
  \<open>IDNCheck\<close>: the whole body stands in \<open>try: ... except: return 0\<close>, so whatever the
  query raises (the missing attribute included) becomes the return value \<open>0\<close>.
\<close>

definition IDNCheck :: "Keysight_DSOX1204G \<Rightarrow> (error + int) \<times> Keysight_DSOX1204G" where
  "IDNCheck self =
     (case OS self of
        None \<Rightarrow> (Inr 0, self)
      | Some t \<Rightarrow>
          (case OS_query ''*IDN?'' t of
             (Inl e, t1) \<Rightarrow> (Inr 0, self\<lparr>OS := Some t1\<rparr>)
           | (Inr reply, t1) \<Rightarrow>
               (if reply = IDN self then Inr 1 else Inr 0, self\<lparr>OS := Some t1\<rparr>)))"

text \<open>
  The file system seen by \<open>open(location, 'wb')\<close>: a path cannot be opened for writing,
  holds no file, or holds a file with its content.
\<close>

datatype slot = Unwritable | NoFile | File bytes

type_synonym filesystem = "string \<Rightarrow> slot"

definition write_file :: "string \<Rightarrow> bytes \<Rightarrow> filesystem \<Rightarrow> (error + unit) \<times> filesystem" where
  "write_file location content fs =
     (if fs location = Unwritable then (Inl OSError, fs)
      else (Inr (), fs(location := File content)))"

text \<open>
  \<open>saveImage\<close>: write the query, read the raw reply, compute \<open>binary_data\<close>, write the
  file. An exception at any step leaves the method at once, with the effects of the steps
  before it in place.
\<close>

definition saveImage ::
  "Keysight_DSOX1204G \<Rightarrow> filesystem \<Rightarrow> string \<Rightarrow> string
     \<Rightarrow> (error + unit) \<times> Keysight_DSOX1204G \<times> filesystem" where
  "saveImage self fs location palette =
     (let command = '':DISPlay:DATA? PNG, '' @ palette
      in case OS self of
           None \<Rightarrow> (Inl AttributeError, self, fs)
         | Some t \<Rightarrow>
             (case OS_write command t of
                (Inl e, t1) \<Rightarrow> (Inl e, self\<lparr>OS := Some t1\<rparr>, fs)
              | (Inr u, t1) \<Rightarrow>
                  (case OS_read_raw t1 of
                     (Inl e, t2) \<Rightarrow> (Inl e, self\<lparr>OS := Some t2\<rparr>, fs)
                   | (Inr data, t2) \<Rightarrow>
                       (case binary_data data of
                          Inl e \<Rightarrow> (Inl e, self\<lparr>OS := Some t2\<rparr>, fs)
                        | Inr content \<Rightarrow>
                            (case write_file location content fs of
                               (r, fs1) \<Rightarrow> (r, self\<lparr>OS := Some t2\<rparr>, fs1))))))"

text \<open>
  The value of a run of digits read from the left, as the scan accumulates it.
\<close>

definition dec_step :: "int \<Rightarrow> char \<Rightarrow> int" where
  "dec_step a c = 10 * a + digit_value c"

text \<open>
  The bytes that can occur at all in a literal \<open>int()\<close> accepts.
\<close>

definition int_literal_byte :: "char \<Rightarrow> bool" where
  "int_literal_byte c =
     (isdigit c \<or> isspace c \<or> c = CHR ''+'' \<or> c = CHR ''-'' \<or> c = CHR ''_'')"

section \<open>Properties\<close>

subsection \<open>Slices\<close>


lemma clamp_index_nonneg: "0 \<le> i \<Longrightarrow> clamp_index n i = min (nat i) n"
  by (simp add: clamp_index_def)

lemma py_slice_nonneg:
  assumes "0 \<le> a" and "0 \<le> b"
  shows "py_slice xs a b = take (nat b - nat a) (drop (nat a) xs)"
proof (cases "nat a \<le> length xs")
  case True
  then show ?thesis
    using assms by (simp add: py_slice_def Let_def clamp_index_nonneg min_def)
next
  case False
  then show ?thesis
    using assms by (simp add: py_slice_def Let_def clamp_index_nonneg)
qed

lemma sublist_py_slice: "sublist (py_slice xs a b) xs"
proof -
  have "sublist (take k (drop j xs)) xs" for k j
    using sublist_take [of k "drop j xs"] sublist_drop [of j xs]
    by (rule sublist_order.order.trans)
  then show ?thesis by (simp add: py_slice_def Let_def)
qed

lemma py_int_Nil: "py_int [] = Inl ValueError"
  by (simp add: py_int_def strip_sign_def)

text \<open>
  Claim C6. The empty response has no header and comes back as it is: the empty byte
  sequence, without any exception.
\<close>

theorem binary_data_empty: "binary_data [] = Inr []"
  by (simp add: binary_data_def startswith_def)

text \<open>
  Claim C4. A non-empty response whose first byte is not \<open>#\<close> is returned unchanged.
\<close>

theorem no_header_unchanged: "c \<noteq> CHR ''#'' \<Longrightarrow> binary_data (c # cs) = Inr (c # cs)"
  by (simp add: binary_data_def startswith_def)

theorem no_header_unchanged_witness:
  "CHR ''a'' \<noteq> CHR ''#'' \<and> binary_data ''abc'' = Inr ''abc''"
  using no_header_unchanged [of "CHR ''a''" "''bc''"] by simp

lemma slice_1_2: "py_slice (a # c # rest) 1 2 = [c]"
  by (simp add: py_slice_nonneg)

lemma slice_1_2_single: "py_slice [a] 1 2 = []"
  by (simp add: py_slice_nonneg)

lemma py_int_zero: "py_int ''0'' = Inr 0"
  by (simp add: py_int_def strip_sign_def isspace_def isdigit_def digit_value_def)

text \<open>
  Claim C10. The response \<open>b'#'\<close> alone, and every response that starts with
  \<open>b'#0'\<close>, makes \<open>int()\<close> read an empty slice, which raises \<open>ValueError\<close>.
\<close>

theorem lone_marker_or_zero_count:
  "binary_data ''#'' = Inl ValueError \<and> binary_data (CHR ''#'' # CHR ''0'' # rest) = Inl ValueError"
proof
  show "binary_data ''#'' = Inl ValueError"
    by (simp add: binary_data_def startswith_def header_length_def slice_1_2_single py_int_Nil)
  have "header_length (CHR ''#'' # CHR ''0'' # rest) = Inr 0"
    by (simp add: header_length_def slice_1_2 py_int_zero)
  moreover have "data_length (CHR ''#'' # CHR ''0'' # rest) 0 = Inl ValueError"
    by (simp add: data_length_def py_slice_nonneg py_int_Nil)
  ultimately show "binary_data (CHR ''#'' # CHR ''0'' # rest) = Inl ValueError"
    by (simp add: binary_data_def startswith_def)
qed


subsection \<open>Decimal digits\<close>


lemma dec_step_apply: "dec_step a c = 10 * a + digit_value c"
  by (simp add: dec_step_def)

lemma isdigit_digit_char: "d < 10 \<Longrightarrow> isdigit (digit_char d)"
  by (simp add: isdigit_def digit_char_def)

lemma digit_value_digit_char: "d < 10 \<Longrightarrow> digit_value (digit_char d) = int d"
  by (simp add: digit_value_def digit_char_def)

lemma digit_not_space: "isdigit c \<Longrightarrow> \<not> isspace c"
  by (auto simp: isdigit_def isspace_def)

lemma digit_not_sign: "isdigit c \<Longrightarrow> c \<noteq> CHR ''+'' \<and> c \<noteq> CHR ''-'' \<and> c \<noteq> CHR ''_''"
  by (auto simp: isdigit_def)

lemma scan_digits_all:
  "\<forall>c \<in> set ds. isdigit c \<Longrightarrow> scan_digits False acc ds = Some (foldl dec_step acc ds, [])"
  by (induction ds arbitrary: acc) (simp_all add: dec_step_apply)

lemma py_int_digits:
  assumes "ds \<noteq> []" and "\<forall>c \<in> set ds. isdigit c"
  shows "py_int ds = Inr (foldl dec_step 0 ds)"
proof -
  obtain c cs where ds: "ds = c # cs"
    using assms(1) by (cases ds) auto
  have c: "isdigit c"
    using assms(2) ds by simp
  have "dropWhile isspace ds = ds"
    using c ds by (simp add: digit_not_space)
  moreover have "strip_sign ds = (1, ds)"
    using c ds digit_not_sign [of c] by (simp add: strip_sign_def)
  ultimately show ?thesis
    using c ds scan_digits_all [OF assms(2), of 0] by (simp add: py_int_def)
qed

lemma str_nat_digits: "\<forall>c \<in> set (str_nat n). isdigit c"
proof (induction n rule: str_nat.induct)
  case (1 n)
  show ?case
  proof (cases "n < 10")
    case True
    then show ?thesis by (subst str_nat.simps) (simp add: isdigit_digit_char)
  next
    case False
    have "isdigit (digit_char (n mod 10))"
      by (rule isdigit_digit_char) simp
    then show ?thesis
      using False "1.IH" by (subst str_nat.simps) auto
  qed
qed

lemma str_nat_nonempty: "str_nat n \<noteq> []"
  by (subst str_nat.simps) simp

lemma foldl_str_nat: "foldl dec_step 0 (str_nat n) = int n"
proof (induction n rule: str_nat.induct)
  case (1 n)
  show ?case
  proof (cases "n < 10")
    case True
    then show ?thesis by (subst str_nat.simps) (simp add: dec_step_apply digit_value_digit_char)
  next
    case False
    have dv: "digit_value (digit_char (n mod 10)) = int (n mod 10)"
      by (rule digit_value_digit_char) simp
    have unfold: "str_nat n = str_nat (n div 10) @ [digit_char (n mod 10)]"
      using False by (subst str_nat.simps) simp
    have ih: "foldl dec_step 0 (str_nat (n div 10)) = int (n div 10)"
      using False by (rule "1.IH")
    have "foldl dec_step 0 (str_nat n) =
        dec_step (foldl dec_step 0 (str_nat (n div 10))) (digit_char (n mod 10))"
      by (simp only: unfold foldl_append foldl.simps)
    also have "\<dots> = 10 * int (n div 10) + int (n mod 10)"
      by (simp only: ih dec_step_apply dv)
    also have "\<dots> = int n"
      by (simp add: zdiv_int zmod_int)
    finally show ?thesis .
  qed
qed

lemma length_str_nat: "0 < k \<Longrightarrow> n < 10 ^ k \<Longrightarrow> length (str_nat n) \<le> k"
proof (induction n arbitrary: k rule: str_nat.induct)
  case (1 n)
  show ?case
  proof (cases "n < 10")
    case True
    then show ?thesis using "1.prems" by (subst str_nat.simps) simp
  next
    case False
    obtain j where k: "k = Suc j"
      using "1.prems"(1) by (cases k) auto
    have "0 < j"
    proof (rule ccontr)
      assume "\<not> 0 < j"
      then show False using k "1.prems"(2) False by simp
    qed
    moreover have "n div 10 < 10 ^ j"
      using "1.prems"(2) k by (simp add: less_mult_imp_div_less mult.commute)
    ultimately have "length (str_nat (n div 10)) \<le> j"
      using "1.IH" False by simp
    then show ?thesis
      using False k by (subst str_nat.simps) simp
  qed
qed

lemma foldl_zeros: "foldl dec_step 0 (replicate k (CHR ''0'')) = 0"
  by (induction k) (simp_all add: dec_step_apply digit_value_def)

lemma fmt_0d_digits: "\<forall>c \<in> set (fmt_0d H L). isdigit c"
  using str_nat_digits [of L] by (auto simp: fmt_0d_def isdigit_def)

lemma fmt_0d_value: "foldl dec_step 0 (fmt_0d H L) = int L"
  by (simp add: fmt_0d_def foldl_zeros foldl_str_nat)

lemma fmt_0d_length: "0 < H \<Longrightarrow> L < 10 ^ H \<Longrightarrow> length (fmt_0d H L) = H"
  using length_str_nat [of H L] by (simp add: fmt_0d_def)

subsection \<open>Decoding a block\<close>

lemma str_nat_small: "n < 10 \<Longrightarrow> str_nat n = [digit_char n]"
  by (subst str_nat.simps) simp

lemma block_Cons:
  "H < 10 \<Longrightarrow> block H L tail = CHR ''#'' # digit_char H # fmt_0d H L @ tail"
  by (simp add: block_def str_nat_small)

lemma py_int_digit_char: "d < 10 \<Longrightarrow> py_int [digit_char d] = Inr (int d)"
  using py_int_digits [of "[digit_char d]"]
  by (simp add: isdigit_digit_char dec_step_apply digit_value_digit_char)

lemma py_int_fmt_0d:
  assumes "0 < H" and "L < 10 ^ H"
  shows "py_int (fmt_0d H L) = Inr (int L)"
proof -
  have "fmt_0d H L \<noteq> []"
    using fmt_0d_length [OF assms] assms(1) by auto
  then show ?thesis
    using py_int_digits [OF _ fmt_0d_digits, of H L] by (simp add: fmt_0d_value)
qed

lemma block_header_length:
  assumes "H < 10"
  shows "header_length (block H L tail) = Inr (int H)"
  using assms by (simp add: header_length_def block_Cons slice_1_2 py_int_digit_char)

lemma block_data_length:
  assumes "0 < H" and "H < 10" and "L < 10 ^ H"
  shows "data_length (block H L tail) (int H) = Inr (int L)"
proof -
  have "py_slice (block H L tail) 2 (2 + int H) = fmt_0d H L"
    using assms by (simp add: py_slice_nonneg block_Cons fmt_0d_length nat_add_distrib)
  then show ?thesis
    using assms by (simp add: data_length_def py_int_fmt_0d)
qed

lemma block_payload_slice:
  assumes "0 < H" and "H < 10" and "L < 10 ^ H"
  shows "py_slice (block H L tail) (2 + int H) (2 + int H + int L) = take L tail"
  using assms by (simp add: py_slice_nonneg block_Cons fmt_0d_length nat_add_distrib)

lemma binary_data_block:
  assumes "0 < H" and "H < 10" and "L < 10 ^ H"
  shows "binary_data (block H L tail) = Inr (take L tail)"
proof -
  have "startswith (block H L tail) ''#''"
    by (simp add: startswith_def block_def)
  then show ?thesis
    using assms
    by (simp add: binary_data_def block_header_length block_data_length block_payload_slice)
qed

text \<open>
  Claim C1. For a well-formed block, that is \<open>#\<close>, one digit \<open>H\<close> from 1 to 9, the
  length \<open>L\<close> written with exactly \<open>H\<close> decimal digits and a payload \<open>P\<close> of \<open>L\<close>
  bytes, the first \<open>int()\<close> reads \<open>H\<close>, the second reads \<open>L\<close>, and the slice taken
  is \<open>P\<close>.
\<close>

theorem well_formed_block_payload:
  assumes "1 \<le> H" and "H \<le> 9" and "L < 10 ^ H" and "length P = L"
  shows "header_length (block H L P) = Inr (int H)
       \<and> data_length (block H L P) (int H) = Inr (int L)
       \<and> binary_data (block H L P) = Inr P"
  using assms block_header_length [of H L P] block_data_length [of H L P]
    binary_data_block [of H L P] by simp

theorem well_formed_block_payload_witness:
  "(1::nat) \<le> 1 \<and> (1::nat) \<le> 9 \<and> (3::nat) < 10 ^ 1 \<and> length ''abc'' = 3
   \<and> block 1 3 ''abc'' = ''#13abc''
   \<and> binary_data ''#13abc'' = Inr ''abc''"
proof -
  have b: "block 1 3 ''abc'' = ''#13abc''"
    by code_simp
  show ?thesis
    using well_formed_block_payload [of 1 3 "''abc''"] b by simp
qed

text \<open>
  Claim C3. When a well-formed header declares more bytes than follow it, the bytes that
  do follow the header are returned, all of them, and nothing is raised.
\<close>

theorem truncated_payload_returned:
  assumes "1 \<le> H" and "H \<le> 9" and "L < 10 ^ H" and "length rest < L"
  shows "binary_data (block H L rest) = Inr rest"
  using assms binary_data_block [of H L rest] by simp

theorem truncated_payload_returned_witness:
  "(1::nat) \<le> 3 \<and> (3::nat) \<le> 9 \<and> (100::nat) < 10 ^ 3 \<and> length ''0123456789'' < 100
   \<and> block 3 100 ''0123456789'' = ''#31000123456789''
   \<and> binary_data ''#31000123456789'' = Inr ''0123456789''"
proof -
  have b: "block 3 100 ''0123456789'' = ''#31000123456789''"
    by code_simp
  show ?thesis
    using truncated_payload_returned [of 3 100 "''0123456789''"] b by simp
qed

lemma str_nat_length_pos: "0 < length (str_nat n)"
  using str_nat_nonempty [of n] by simp

lemma str_nat_bound: "n < 10 ^ length (str_nat n)"
proof (induction n rule: str_nat.induct)
  case (1 n)
  show ?case
  proof (cases "n < 10")
    case True
    then show ?thesis by (simp add: str_nat_small)
  next
    case False
    have unfold: "str_nat n = str_nat (n div 10) @ [digit_char (n mod 10)]"
      using False by (subst str_nat.simps) simp
    have "n div 10 < 10 ^ length (str_nat (n div 10))"
      using False by (rule "1.IH")
    then have "n < 10 * 10 ^ length (str_nat (n div 10))"
      by (simp add: div_less_iff_less_mult mult.commute)
    then show ?thesis
      by (simp add: unfold)
  qed
qed

lemma binary_data_encode_block:
  assumes "length P < 10 ^ 9"
  shows "binary_data (encode_block P) = Inr P"
proof -
  let ?H = "length (str_nat (length P))"
  have "?H \<le> 9"
    using length_str_nat [of 9 "length P"] assms by simp
  then have "?H < 10"
    by simp
  then show ?thesis
    using binary_data_block [OF str_nat_length_pos _ str_nat_bound, of "length P" P]
    by (simp add: encode_block_def)
qed

text \<open>
  Claim C5. Round trip: a payload of 0, 1, 255 or 65536 bytes, put behind the header that
  states its length, is returned exactly.
\<close>

theorem encode_decode_round_trip:
  assumes "length P \<in> {0, 1, 255, 65536}"
  shows "binary_data (encode_block P) = Inr P"
proof (rule binary_data_encode_block)
  show "length P < 10 ^ 9"
    using assms by auto
qed

theorem encode_decode_round_trip_witness:
  "length ''Z'' \<in> {0, 1, 255, 65536} \<and> encode_block ''Z'' = ''#11Z''
   \<and> binary_data ''#11Z'' = Inr ''Z''"
proof -
  have e: "encode_block ''Z'' = ''#11Z''"
    by code_simp
  show ?thesis
    using encode_decode_round_trip [of "''Z''"] e by simp
qed

lemma binary_data_result:
  assumes "binary_data data = Inr out"
  shows "out = data \<or> (\<exists>a b. out = py_slice data a b)"
  using assms by (auto simp: binary_data_def split: if_splits sum.splits)

text \<open>
  Claim C9. Whenever a result is returned, it is a contiguous part of the response, so
  it is never longer than the response.
\<close>

theorem result_is_slice_of_input:
  assumes "binary_data data = Inr out"
  shows "sublist out data \<and> length out \<le> length data"
proof -
  have "sublist out data"
    using binary_data_result [OF assms] sublist_py_slice by auto
  then show ?thesis
    by (simp add: sublist_length_le)
qed

theorem result_is_slice_of_input_witness:
  "binary_data ''#2-5abcdefgh'' = Inr ''abcdefg''
   \<and> sublist ''abcdefg'' ''#2-5abcdefgh'' \<and> length ''abcdefg'' \<le> length ''#2-5abcdefgh''"
proof -
  have b: "binary_data ''#2-5abcdefgh'' = Inr ''abcdefg''"
    by code_simp
  show ?thesis
    using result_is_slice_of_input [OF b] b by simp
qed

subsection \<open>What \<open>int()\<close> refuses\<close>

lemma py_int_error: "py_int s = Inl e \<Longrightarrow> e = ValueError"
  by (auto simp: py_int_def Let_def split: prod.splits list.splits if_splits option.splits)

lemma binary_data_error: "binary_data data = Inl e \<Longrightarrow> e = ValueError"
  by (auto simp: binary_data_def header_length_def data_length_def
      split: if_splits sum.splits dest: py_int_error)

lemma scan_digits_consumed:
  "scan_digits us acc s = Some (v, rest) \<Longrightarrow>
     \<exists>pre. s = pre @ rest \<and> (\<forall>c \<in> set pre. isdigit c \<or> c = CHR ''_'')"
proof (induction s arbitrary: us acc)
  case Nil
  then show ?case by (simp split: if_splits)
next
  case (Cons c cs)
  show ?case
  proof (cases "isdigit c \<or> c = CHR ''_''")
    case True
    then obtain us' acc' where "scan_digits us' acc' cs = Some (v, rest)"
      using Cons.prems by (auto split: if_splits)
    then obtain pre where "cs = pre @ rest" and "\<forall>c \<in> set pre. isdigit c \<or> c = CHR ''_''"
      using Cons.IH by blast
    then have "c # cs = (c # pre) @ rest \<and> (\<forall>x \<in> set (c # pre). isdigit x \<or> x = CHR ''_'')"
      using True by simp
    then show ?thesis by blast
  next
    case False
    then have "rest = c # cs"
      using Cons.prems by (auto split: if_splits)
    then have "c # cs = [] @ rest \<and> (\<forall>x \<in> set []. isdigit x \<or> x = CHR ''_'')"
      by simp
    then show ?thesis by blast
  qed
qed

lemma strip_sign_bytes:
  assumes "strip_sign s = (sign, body)"
  shows "set s \<subseteq> {CHR ''+'', CHR ''-''} \<union> set body"
  using assms by (auto simp: strip_sign_def split: list.splits if_splits)

lemma py_int_accepts_literal_bytes:
  assumes "py_int s = Inr v"
  shows "\<forall>c \<in> set s. int_literal_byte c"
proof -
  obtain sign body where sb: "strip_sign (dropWhile isspace s) = (sign, body)"
    by (cases "strip_sign (dropWhile isspace s)") auto
  obtain v' rest where sc: "scan_digits False 0 body = Some (v', rest)"
    and sp: "dropWhile isspace rest = []"
    using assms sb
    by (auto simp: py_int_def split: list.splits if_splits option.splits)
  obtain pre where body: "body = pre @ rest"
    and pre: "\<forall>c \<in> set pre. isdigit c \<or> c = CHR ''_''"
    using scan_digits_consumed [OF sc] by blast
  have rest: "\<forall>c \<in> set rest. isspace c"
    using sp by (simp add: dropWhile_eq_Nil_conv)
  have "\<forall>c \<in> set body. int_literal_byte c"
    using body pre rest by (auto simp: int_literal_byte_def)
  then have tail: "\<forall>c \<in> set (dropWhile isspace s). int_literal_byte c"
    using strip_sign_bytes [OF sb] by (auto simp: int_literal_byte_def)
  have "set s = set (takeWhile isspace s) \<union> set (dropWhile isspace s)"
    by (metis set_append takeWhile_dropWhile_id)
  moreover have "\<forall>c \<in> set (takeWhile isspace s). isspace c"
    by (auto dest: set_takeWhileD)
  ultimately show ?thesis
    using tail by (auto simp: int_literal_byte_def)
qed

lemma py_int_single_non_digit: "\<not> isdigit c \<Longrightarrow> py_int [c] = Inl ValueError"
  by (simp add: py_int_def strip_sign_def)

lemma py_int_single_digit: "isdigit c \<Longrightarrow> py_int [c] = Inr (digit_value c)"
  using py_int_digits [of "[c]"] by (simp add: dec_step_apply)

lemma digit_value_nonneg: "isdigit c \<Longrightarrow> 0 \<le> digit_value c"
  by (simp add: isdigit_def digit_value_def)

lemma block_header_fields:
  assumes "data = CHR ''#'' # c # rest" and "isdigit c"
  shows "header_length data = Inr (digit_value c)"
    and "data_length data (digit_value c) = py_int (take (nat (digit_value c)) rest)"
proof -
  show "header_length data = Inr (digit_value c)"
    using assms by (simp add: header_length_def slice_1_2 py_int_single_digit)
  have "py_slice data 2 (2 + digit_value c) = take (nat (digit_value c)) rest"
    using assms(1) digit_value_nonneg [OF assms(2)]
    by (simp add: py_slice_nonneg nat_add_distrib)
  then show "data_length data (digit_value c) = py_int (take (nat (digit_value c)) rest)"
    by (simp add: data_length_def)
qed

lemma non_digit_count_refused:
  assumes "data = CHR ''#'' # c # rest" and "\<not> isdigit c"
  shows "binary_data data = Inl ValueError"
proof -
  have "header_length data = Inl ValueError"
    using assms by (simp add: header_length_def slice_1_2 py_int_single_non_digit)
  then show ?thesis
    using assms(1) by (simp add: binary_data_def startswith_def)
qed

lemma digit_count_then_length_field:
  assumes "data = CHR ''#'' # c # rest" and "isdigit c"
  shows "binary_data data =
     (case py_int (take (nat (digit_value c)) rest) of
        Inl e \<Rightarrow> Inl e
      | Inr l \<Rightarrow> Inr (py_slice data (2 + digit_value c) (2 + digit_value c + l)))"
proof -
  have "startswith data ''#''"
    using assms(1) by (simp add: startswith_def)
  then show ?thesis
    using block_header_fields [OF assms]
    by (cases "py_int (take (nat (digit_value c)) rest)") (simp_all add: binary_data_def)
qed

text \<open>
  Claim C2, as the code has it. Let the response start with \<open>#\<close> and have a byte \<open>c\<close>
  at index 1; the length field is the next \<open>int(c)\<close> bytes. \<open>ValueError\<close> is raised exactly
  when \<open>c\<close> is not an ASCII digit or \<open>int()\<close> refuses the length field. In every other
  case, whatever non-digit bytes \<open>int()\<close> has accepted in the field (blanks around the
  digits, a sign, single underscores between digits), the slice behind the header is
  returned. The exception is Python's own: it carries no offset, and the source defines
  no \<open>FormatError\<close>.
\<close>

theorem malformed_header_raises_ValueError:
  assumes "data = CHR ''#'' # c # rest"
  shows "(binary_data data = Inl ValueError
            \<longleftrightarrow> \<not> isdigit c \<or> py_int (take (nat (digit_value c)) rest) = Inl ValueError)
       \<and> (\<forall>l. isdigit c \<and> py_int (take (nat (digit_value c)) rest) = Inr l \<longrightarrow>
             binary_data data = Inr (py_slice data (2 + digit_value c) (2 + digit_value c + l)))"
proof (cases "isdigit c")
  case False
  then show ?thesis
    using non_digit_count_refused [OF assms] by simp
next
  case True
  show ?thesis
  proof (cases "py_int (take (nat (digit_value c)) rest)")
    case (Inl e)
    then have "e = ValueError"
      by (rule py_int_error)
    then show ?thesis
      using True Inl digit_count_then_length_field [OF assms True] by simp
  next
    case (Inr l)
    then show ?thesis
      using True digit_count_then_length_field [OF assms True] by simp
  qed
qed

theorem malformed_header_raises_ValueError_witness:
  "binary_data ''#A123'' = Inl ValueError
   \<and> binary_data ''#25-ab'' = Inl ValueError
   \<and> binary_data ''#2__ab'' = Inl ValueError
   \<and> binary_data ''#35 5ab'' = Inl ValueError
   \<and> binary_data ''#2x5ab'' = Inl ValueError
   \<and> binary_data ''#2+3abcd'' = Inr ''abc''
   \<and> binary_data ''#31_0abcdefghijkl'' = Inr ''abcdefghij''"
proof -
  have a: "\<not> isdigit (CHR ''A'')"
    by (simp add: isdigit_def)
  have d: "isdigit (CHR ''2'')" "isdigit (CHR ''3'')"
    by (simp_all add: isdigit_def)
  have n: "nat (digit_value (CHR ''2'')) = 2" "nat (digit_value (CHR ''3'')) = 3"
    "digit_value (CHR ''2'') = 2" "digit_value (CHR ''3'') = 3"
    by (simp_all add: digit_value_def)
  have r: "py_int ''5-'' = Inl ValueError" "py_int ''__'' = Inl ValueError"
    "py_int ''5 5'' = Inl ValueError" "py_int ''x5'' = Inl ValueError"
    by code_simp+
  have ok: "py_int ''+3'' = Inr 3" "py_int ''1_0'' = Inr 10"
    by code_simp+
  have s: "py_slice ''#2+3abcd'' 4 7 = ''abc''"
    "py_slice ''#31_0abcdefghijkl'' 5 15 = ''abcdefghij''"
    by code_simp+
  show ?thesis
    using malformed_header_raises_ValueError [of "''#A123''" "CHR ''A''" "''123''"]
      malformed_header_raises_ValueError [of "''#25-ab''" "CHR ''2''" "''5-ab''"]
      malformed_header_raises_ValueError [of "''#2__ab''" "CHR ''2''" "''__ab''"]
      malformed_header_raises_ValueError [of "''#35 5ab''" "CHR ''3''" "''5 5ab''"]
      malformed_header_raises_ValueError [of "''#2x5ab''" "CHR ''2''" "''x5ab''"]
      malformed_header_raises_ValueError [of "''#2+3abcd''" "CHR ''2''" "''+3abcd''"]
      malformed_header_raises_ValueError [of "''#31_0abcdefghijkl''" "CHR ''3''" "''1_0abcdefghijkl''"]
    by (simp add: a d n r ok s)
qed

text \<open>
  Claim C2, as stated, fails: the length field \<open>b' 5'\<close> has a non-digit byte where a
  digit is expected, yet \<open>int()\<close> skips the blank, reads 5, and five bytes are returned.
\<close>

theorem lenient_length_field_counterexample:
  "startswith ''#2 5abcdefgh'' ''#''
   \<and> py_slice ''#2 5abcdefgh'' 2 4 = [CHR '' '', CHR ''5'']
   \<and> \<not> isdigit (CHR '' '')
   \<and> binary_data ''#2 5abcdefgh'' = Inr ''abcde''"
  by (simp add: binary_data_def startswith_def header_length_def data_length_def py_slice_def
      clamp_index_def py_int_def strip_sign_def isspace_def isdigit_def digit_value_def)

subsection \<open>The connectivity check\<close>

lemma IDNCheck_never_raises: "fst (IDNCheck self) = Inr 0 \<or> fst (IDNCheck self) = Inr 1"
  by (simp add: IDNCheck_def split: option.splits prod.splits sum.splits)

lemma IDNCheck_detected:
  assumes "OS self = Some t" and "fst (OS_query ''*IDN?'' t) = Inr (IDN self)"
  shows "fst (IDNCheck self) = Inr 1"
  using assms by (auto simp: IDNCheck_def split: prod.splits sum.splits)

text \<open>
  Claim C7, as the code has it. \<open>IDNCheck\<close> returns \<open>0\<close> in each of three cases: \<open>self.OS\<close>
  was never assigned, so that reading it raises; the query raises, whatever the exception;
  the query answers with a string other than \<open>self.IDN\<close>. The bare \<open>except\<close> turns the
  first two into the return value of the third, and no exception reaches the caller.
\<close>

theorem IDNCheck_swallows_transport_error:
  assumes "OS self = None
         \<or> (\<exists>t e. OS self = Some t \<and> fst (OS_query ''*IDN?'' t) = Inl e)
         \<or> (\<exists>t reply. OS self = Some t \<and> fst (OS_query ''*IDN?'' t) = Inr reply
                \<and> reply \<noteq> IDN self)"
  shows "fst (IDNCheck self) = Inr 0"
  using assms by (auto simp: IDNCheck_def split: prod.splits sum.splits)

theorem IDNCheck_swallows_transport_error_witness:
  "fst (IDNCheck \<lparr>IDN = ''KEYSIGHT'', USB_Addr = ''usb'', LAN_Addr = ''lan'', OS = None\<rparr>) = Inr 0
   \<and> fst (IDNCheck \<lparr>IDN = ''KEYSIGHT'', USB_Addr = ''usb'', LAN_Addr = ''lan'',
                     OS = Some \<lparr>link_up = False, outbox = [], inbox = []\<rparr>\<rparr>) = Inr 0
   \<and> fst (IDNCheck \<lparr>IDN = ''KEYSIGHT'', USB_Addr = ''usb'', LAN_Addr = ''lan'',
                     OS = Some \<lparr>link_up = True, outbox = [], inbox = [''RIGOL'']\<rparr>\<rparr>) = Inr 0"
proof -
  have down: "fst (OS_query ''*IDN?'' \<lparr>link_up = False, outbox = [], inbox = []\<rparr>) = Inl VisaIOError"
    by (simp add: OS_query_def OS_write_def)
  have other: "fst (OS_query ''*IDN?'' \<lparr>link_up = True, outbox = [], inbox = [''RIGOL'']\<rparr>)
      = Inr ''RIGOL''"
    by (simp add: OS_query_def OS_write_def OS_read_raw_def)
  show ?thesis
    using IDNCheck_swallows_transport_error
        [of "\<lparr>IDN = ''KEYSIGHT'', USB_Addr = ''usb'', LAN_Addr = ''lan'', OS = None\<rparr>"]
      IDNCheck_swallows_transport_error
        [of "\<lparr>IDN = ''KEYSIGHT'', USB_Addr = ''usb'', LAN_Addr = ''lan'',
             OS = Some \<lparr>link_up = False, outbox = [], inbox = []\<rparr>\<rparr>"]
      IDNCheck_swallows_transport_error
        [of "\<lparr>IDN = ''KEYSIGHT'', USB_Addr = ''usb'', LAN_Addr = ''lan'',
             OS = Some \<lparr>link_up = True, outbox = [], inbox = [''RIGOL'']\<rparr>\<rparr>"]
    by (simp add: down other)
qed

text \<open>
  Claim C7, as stated, fails: with the link down the query raises \<open>VisaIOError\<close>, and
  \<open>IDNCheck\<close> returns \<open>0\<close> instead of passing an error on.
\<close>

theorem IDNCheck_error_not_propagated_counterexample:
  "fst (OS_query ''*IDN?'' \<lparr>link_up = False, outbox = [''*IDN?''], inbox = []\<rparr>) = Inl VisaIOError
   \<and> fst (IDNCheck \<lparr>IDN = ''KEYSIGHT'', USB_Addr = ''usb'', LAN_Addr = ''lan'',
                     OS = Some \<lparr>link_up = False, outbox = [''*IDN?''], inbox = []\<rparr>\<rparr>) = Inr 0"
  by (simp add: IDNCheck_def OS_query_def OS_write_def)

subsection \<open>What \<open>saveImage\<close> writes\<close>

text \<open>
  With the link up, a response waiting and a location that can be written, \<open>saveImage\<close>
  sends its query, takes the response, and either raises what \<open>binary_data\<close> raises,
  leaving the file system as it was, or stores the bytes \<open>binary_data\<close> gives at the
  location.
\<close>

lemma saveImage_run:
  assumes "OS self = Some t" and "link_up t" and "inbox t = data # later"
    and "fs location \<noteq> Unwritable"
  shows "saveImage self fs location palette =
     (let t2 = t\<lparr>outbox := outbox t @ ['':DISPlay:DATA? PNG, '' @ palette], inbox := later\<rparr>
      in case binary_data data of
           Inl e \<Rightarrow> (Inl e, self\<lparr>OS := Some t2\<rparr>, fs)
         | Inr content \<Rightarrow> (Inr (), self\<lparr>OS := Some t2\<rparr>, fs(location := File content)))"
  using assms
  by (simp add: saveImage_def OS_write_def OS_read_raw_def write_file_def Let_def
      split: sum.splits)

end
